theory Spec2Isabelle
  imports Main
begin

section \<open>JavaScript values read from and written to the workspace configuration\<close>

text \<open>
  A configuration value is whatever the settings file holds. Numbers are the integers
  (every numeric option read here is a count), an array holds strings (every array option
  read here is declared \<^verbatim>\<open>string[]\<close>), and any other object, a function
  included, is opaque. A JavaScript number holds an integer exactly only up to
  \<open>2 ^ 53 - 1\<close> in magnitude: \<open>JNum n\<close> stands for a value of the program when
  \<open>safe_integer n\<close> holds, and for none otherwise.
\<close>

datatype jsvalue =
    JUndefined
  | JNull
  | JBool bool
  | JNum int
  | JStr string
  | JArr "string list"
  | JObject

datatype js_error = TypeError

definition safe_integer :: "int \<Rightarrow> bool" where
  "safe_integer n = (- (2 ^ 53 - 1) \<le> n \<and> n \<le> 2 ^ 53 - 1)"

fun js_value :: "jsvalue \<Rightarrow> bool" where
  "js_value (JNum n) = safe_integer n"
| "js_value v = True"

text \<open>ToBoolean, as used by \<^verbatim>\<open>if\<close>, \<^verbatim>\<open>!\<close>, \<^verbatim>\<open>&&\<close> and \<^verbatim>\<open>||\<close>.\<close>

fun truthy :: "jsvalue \<Rightarrow> bool" where
  "truthy JUndefined = False"
| "truthy JNull = False"
| "truthy (JBool b) = b"
| "truthy (JNum n) = (n \<noteq> 0)"
| "truthy (JStr s) = (s \<noteq> [])"
| "truthy (JArr xs) = True"
| "truthy JObject = True"

text \<open>\<^verbatim>\<open>a || b\<close> and \<^verbatim>\<open>a ?? b\<close> on values already evaluated.\<close>

definition js_or :: "jsvalue \<Rightarrow> jsvalue \<Rightarrow> jsvalue" where
  "js_or a b = (if truthy a then a else b)"

definition js_nullish :: "jsvalue \<Rightarrow> jsvalue \<Rightarrow> jsvalue" where
  "js_nullish a b = (if a = JUndefined \<or> a = JNull then b else a)"

subsection \<open>Decimal rendering and string conversion\<close>

definition digit_char :: "nat \<Rightarrow> char" where
  "digit_char d = char_of (48 + d)"

function show_nat :: "nat \<Rightarrow> string" where
  "show_nat n = (if n < 10 then [digit_char n] else show_nat (n div 10) @ [digit_char (n mod 10)])"
  by pat_completeness auto
termination
  by (relation "measure id") auto

declare show_nat.simps [simp del]

definition show_int :: "int \<Rightarrow> string" where
  "show_int i = (if i < 0 then CHR ''-'' # show_nat (nat (- i)) else show_nat (nat i))"

fun js_join :: "string \<Rightarrow> string list \<Rightarrow> string" where
  "js_join sep [] = []"
| "js_join sep [x] = x"
| "js_join sep (x # y # ys) = x @ sep @ js_join sep (y # ys)"

text \<open>
  \<^verbatim>\<open>v.toString()\<close>: \<^verbatim>\<open>undefined\<close> and \<^verbatim>\<open>null\<close> have no such
  method and the call raises. A safe integer prints in plain decimal (the exponent form
  starts at \<open>10 ^ 21\<close>, beyond the safe integers), so the equation for \<open>JNum n\<close> is
  that of the program where \<open>safe_integer n\<close> holds.
\<close>

fun js_toString :: "jsvalue \<Rightarrow> js_error + string" where
  "js_toString JUndefined = Inl TypeError"
| "js_toString JNull = Inl TypeError"
| "js_toString (JBool b) = Inr (if b then ''true'' else ''false'')"
| "js_toString (JNum n) = Inr (show_int n)"
| "js_toString (JStr s) = Inr s"
| "js_toString (JArr xs) = Inr (js_join '','' xs)"
| "js_toString JObject = Inr ''[object Object]''"

text \<open>The property key a value denotes in \<^verbatim>\<open>obj[v]\<close>.\<close>

fun to_property_key :: "jsvalue \<Rightarrow> string" where
  "to_property_key JUndefined = ''undefined''"
| "to_property_key JNull = ''null''"
| "to_property_key v = (case js_toString v of Inr s \<Rightarrow> s | Inl e \<Rightarrow> [])"

section \<open>The workspace configuration\<close>

text \<open>
  The editor keeps the settings; the extension reads them under its own namespace and
  under the namespace of its predecessor. A key that is not set reads as
  \<^verbatim>\<open>undefined\<close>. The model keeps one effective value for each namespace and key:
  the resource scope of a read and the target of a write (\<^verbatim>\<open>isGlobal\<close>) are passed
  along as in the source and do not select different stores.
\<close>

datatype namespace = EXT_NAMESPACE | EXT_LEGACY_NAMESPACE

type_synonym scope = string

type_synonym configuration = "namespace \<Rightarrow> string \<Rightarrow> jsvalue"

definition cfg_get :: "configuration \<Rightarrow> namespace \<Rightarrow> scope option \<Rightarrow> string \<Rightarrow> jsvalue" where
  "cfg_get cfg ns sc key = cfg ns key"

definition cfg_update :: "configuration \<Rightarrow> namespace \<Rightarrow> string \<Rightarrow> jsvalue \<Rightarrow> bool \<Rightarrow> configuration" where
  "cfg_update cfg ns key v isGlobal = cfg (ns := (cfg ns) (key := v))"

text \<open>The calls a write makes on the editor's configuration, in the order they are made.\<close>

datatype cfg_call = Update namespace string jsvalue bool

fun run_call :: "configuration \<Rightarrow> cfg_call \<Rightarrow> configuration" where
  "run_call cfg (Update ns key v isGlobal) = cfg_update cfg ns key v isGlobal"

definition empty_configuration :: configuration where
  "empty_configuration = (\<lambda>ns key. JUndefined)"

subsection \<open>Config.getConfig and Config.setConfig\<close>

definition getConfig_in :: "configuration \<Rightarrow> string \<Rightarrow> scope option \<Rightarrow> jsvalue" where
  "getConfig_in cfg key sc =
     (let config = cfg_get cfg EXT_NAMESPACE sc key
      in if config = JUndefined then cfg_get cfg EXT_LEGACY_NAMESPACE None key else config)"

definition getConfig :: "configuration \<Rightarrow> string \<Rightarrow> jsvalue" where
  "getConfig cfg key = getConfig_in cfg key None"

definition setConfig_calls :: "configuration \<Rightarrow> string \<Rightarrow> jsvalue \<Rightarrow> bool \<Rightarrow> cfg_call list" where
  "setConfig_calls cfg key v isGlobal =
     (if truthy (cfg_get cfg EXT_LEGACY_NAMESPACE None key)
      then [Update EXT_LEGACY_NAMESPACE key JUndefined isGlobal]
      else [])
     @ [Update EXT_NAMESPACE key v isGlobal]"

definition setConfig :: "configuration \<Rightarrow> string \<Rightarrow> jsvalue \<Rightarrow> bool \<Rightarrow> configuration" where
  "setConfig cfg key v isGlobal = foldl run_call cfg (setConfig_calls cfg key v isGlobal)"

subsection \<open>Plain getters\<close>

definition disablePathParsing :: "configuration \<Rightarrow> jsvalue" where
  "disablePathParsing cfg = js_nullish (getConfig cfg ''disablePathParsing'') (JBool False)"

text \<open>The getter \<^verbatim>\<open>_keyStyle\<close>.\<close>

definition Config_keyStyle :: "configuration \<Rightarrow> jsvalue" where
  "Config_keyStyle cfg =
     (let style = js_or (getConfig cfg ''keystyle'') (JStr ''auto'')
      in if style = JStr ''auto'' \<and> truthy (disablePathParsing cfg) then JStr ''flat'' else style)"

definition translateParallels :: "configuration \<Rightarrow> jsvalue" where
  "translateParallels cfg = js_or (getConfig cfg ''translate.parallels'') (JNum 5)"

definition ignoredLocales :: "configuration \<Rightarrow> string list" where
  "ignoredLocales cfg =
     (let ignored = getConfig cfg ''ignoredLocales''
      in if \<not> truthy ignored then []
         else (case ignored of
                 JStr s \<Rightarrow> [s]
               | JArr xs \<Rightarrow> xs
               | _ \<Rightarrow> []))"

text \<open>
  \<^verbatim>\<open>toggleLocaleVisibility(locale, visible?)\<close>; an omitted \<^verbatim>\<open>visible\<close> is
  \<open>None\<close>. The setter of \<^verbatim>\<open>ignoredLocales\<close> writes with \<^verbatim>\<open>isGlobal = true\<close>.
\<close>

definition toggleLocaleVisibility :: "configuration \<Rightarrow> string \<Rightarrow> bool option \<Rightarrow> configuration" where
  "toggleLocaleVisibility cfg locale visible =
     (let ignored = ignoredLocales cfg;
          visible' = (case visible of None \<Rightarrow> \<not> (locale \<in> set ignored) | Some b \<Rightarrow> b)
      in if \<not> visible'
         then setConfig cfg ''ignoredLocales'' (JArr (ignored @ [locale])) True
         else setConfig cfg ''ignoredLocales'' (JArr (filter (\<lambda>i. i \<noteq> locale) ignored)) True)"

subsection \<open>Tag systems\<close>

text \<open>
  The table \<^verbatim>\<open>TagSystems\<close> lives in another module, so it is a parameter here: a
  lookup by name that yields a tag system or nothing. Of a tag system only the method
  \<^verbatim>\<open>normalize(locale, fallback, strict)\<close> is called; an omitted argument is
  \<^verbatim>\<open>undefined\<close>.
\<close>

record tag_system =
  normalize :: "jsvalue \<Rightarrow> jsvalue \<Rightarrow> jsvalue \<Rightarrow> jsvalue"

type_synonym tag_systems = "string \<Rightarrow> tag_system option"

definition tagSystem :: "configuration \<Rightarrow> tag_systems \<Rightarrow> tag_system option" where
  "tagSystem cfg TagSystems =
     (let tag = js_or (getConfig cfg ''languageTagSystem'') (JStr ''bcp47'')
      in TagSystems (to_property_key tag))"

text \<open>Calling \<^verbatim>\<open>normalize\<close> on a tag system that is not there raises.\<close>

definition normalizeLocale ::
  "configuration \<Rightarrow> tag_systems \<Rightarrow> jsvalue \<Rightarrow> jsvalue \<Rightarrow> jsvalue \<Rightarrow> js_error + jsvalue" where
  "normalizeLocale cfg TagSystems locale fallback strict =
     (case tagSystem cfg TagSystems of
        None \<Rightarrow> Inl TypeError
      | Some ts \<Rightarrow> Inr (normalize ts locale fallback strict))"

definition displayLanguage :: "configuration \<Rightarrow> tag_systems \<Rightarrow> js_error + jsvalue" where
  "displayLanguage cfg TagSystems =
     normalizeLocale cfg TagSystems (js_or (getConfig cfg ''displayLanguage'') (JStr [])) JUndefined JUndefined"

definition sourceLanguage :: "configuration \<Rightarrow> tag_systems \<Rightarrow> js_error + jsvalue" where
  "sourceLanguage cfg TagSystems =
     (case normalizeLocale cfg TagSystems (js_or (getConfig cfg ''sourceLanguage'') (JStr [])) (JStr []) JUndefined of
        Inl e \<Rightarrow> Inl e
      | Inr a \<Rightarrow>
          if truthy a then Inr a
          else (case displayLanguage cfg TagSystems of
                  Inl e \<Rightarrow> Inl e
                | Inr b \<Rightarrow> Inr (js_or b (JStr ''en''))))"

subsection \<open>Locale paths\<close>

text \<open>\<^verbatim>\<open>s.split(',')\<close>: the empty string splits into one empty piece.\<close>

fun js_split :: "char \<Rightarrow> string \<Rightarrow> string list" where
  "js_split sep [] = [[]]"
| "js_split sep (c # cs) =
     (if c = sep then [] # js_split sep cs
      else (case js_split sep cs of
              [] \<Rightarrow> [[c]]
            | p # ps \<Rightarrow> (c # p) # ps))"

text \<open>lodash \<^verbatim>\<open>trimEnd(s, chars)\<close> drops the trailing characters that occur in \<^verbatim>\<open>chars\<close>.\<close>

definition trimEnd :: "string \<Rightarrow> string \<Rightarrow> string" where
  "trimEnd s chars = rev (dropWhile (\<lambda>c. c \<in> set chars) (rev s))"

definition backslash :: char where
  "backslash = CHR 0x5C"

text \<open>\<^verbatim>\<open>s.replace(/\\/g, '/')\<close>\<close>

definition replace_backslashes :: "string \<Rightarrow> string" where
  "replace_backslashes s = map (\<lambda>c. if c = backslash then CHR ''/'' else c) s"

text \<open>The function mapped over the paths: \<^verbatim>\<open>i => trimEnd(i, '/\\').replace(/\\/g, '/')\<close>\<close>

definition clean_path :: "string \<Rightarrow> string" where
  "clean_path i = replace_backslashes (trimEnd i [CHR ''/'', backslash])"

text \<open>
  The getter \<^verbatim>\<open>_localesPaths\<close>: \<open>Inr None\<close> is the return of \<^verbatim>\<open>undefined\<close>, and
  a truthy value that is neither a string nor an array has no \<^verbatim>\<open>map\<close> method.
\<close>

definition Config_localesPaths :: "configuration \<Rightarrow> js_error + string list option" where
  "Config_localesPaths cfg =
     (let paths = getConfig cfg ''localesPaths''
      in if \<not> truthy paths then Inr None
         else (case paths of
                 JStr s \<Rightarrow> Inr (Some (map clean_path (js_split CHR '','' s)))
               | JArr xs \<Rightarrow> Inr (Some (map clean_path xs))
               | _ \<Rightarrow> Inl TypeError))"

definition getLocalesPathsInScope :: "configuration \<Rightarrow> scope \<Rightarrow> js_error + string list option" where
  "getLocalesPathsInScope cfg sc =
     (let paths = getConfig_in cfg ''localesPaths'' (Some sc)
      in if \<not> truthy paths then Inr None
         else (case paths of
                 JStr s \<Rightarrow> Inr (Some (map clean_path (js_split CHR '','' s)))
               | JArr xs \<Rightarrow> Inr (Some (map clean_path xs))
               | _ \<Rightarrow> Inl TypeError))"

text \<open>lodash \<^verbatim>\<open>uniq\<close>: walk the array and keep a value unless it was kept before.\<close>

fun uniq_into :: "'a list \<Rightarrow> 'a list \<Rightarrow> 'a list" where
  "uniq_into seen [] = seen"
| "uniq_into seen (x # xs) = uniq_into (if x \<in> set seen then seen else seen @ [x]) xs"

definition uniq :: "'a list \<Rightarrow> 'a list" where
  "uniq xs = uniq_into [] xs"

text \<open>
  \<^verbatim>\<open>updateLocalesPaths(paths)\<close>; the setter of \<^verbatim>\<open>_localesPaths\<close> writes with the
  default \<^verbatim>\<open>isGlobal = false\<close>.
\<close>

definition or_empty :: "string list option \<Rightarrow> string list" where
  "or_empty current = (case current of None \<Rightarrow> [] | Some ps \<Rightarrow> ps)"

definition updateLocalesPaths :: "configuration \<Rightarrow> string list \<Rightarrow> js_error + configuration" where
  "updateLocalesPaths cfg paths =
     (case Config_localesPaths cfg of
        Inl e \<Rightarrow> Inl e
      | Inr current \<Rightarrow>
          Inr (setConfig cfg ''localesPaths'' (JArr (uniq (or_empty current @ paths))) False))"

text \<open>What the setting holds under the extension's own namespace.\<close>

definition stored :: "configuration \<Rightarrow> string \<Rightarrow> jsvalue" where
  "stored cfg key = cfg_get cfg EXT_NAMESPACE None key"

text \<open>The same after a call that may have raised.\<close>

definition stored_after :: "js_error + configuration \<Rightarrow> string \<Rightarrow> js_error + jsvalue" where
  "stored_after r key = (case r of Inl e \<Rightarrow> Inl e | Inr cfg \<Rightarrow> Inr (stored cfg key))"

section \<open>Message formatting (i18n)\<close>

definition is_digit :: "char \<Rightarrow> bool" where
  "is_digit c = (c \<in> set ''0123456789'')"

text \<open>
  Whether \<^verbatim>\<open>/{(\d+)}/\<close> matches at the start of the string: the captured digits and
  the text after the closing brace. The digits are taken greedily; giving some back
  cannot help, since the character after a shorter run is a digit and not a brace.
\<close>

definition match_placeholder :: "string \<Rightarrow> (string \<times> string) option" where
  "match_placeholder s =
     (case s of
        [] \<Rightarrow> None
      | c # cs \<Rightarrow>
          if c = CHR ''{'' then
            (case dropWhile is_digit cs of
               [] \<Rightarrow> None
             | r # rs \<Rightarrow>
                 if takeWhile is_digit cs \<noteq> [] \<and> r = CHR ''}''
                 then Some (takeWhile is_digit cs, rs)
                 else None)
          else None)"

text \<open>
  \<^verbatim>\<open>args[number]\<close> where \<^verbatim>\<open>number\<close> is the captured string: an array has an
  element under a string key only when the key is the decimal form of an index, so a
  key with a leading zero (other than \<^verbatim>\<open>"0"\<close>) finds nothing.
\<close>

definition read_nat :: "string \<Rightarrow> nat" where
  "read_nat ds = foldl (\<lambda>a c. 10 * a + (of_char c - 48)) 0 ds"

definition js_array_get :: "jsvalue list \<Rightarrow> string \<Rightarrow> jsvalue" where
  "js_array_get args key =
     (if key = ''0'' \<or> (key \<noteq> [] \<and> hd key \<noteq> CHR ''0'' \<and> list_all is_digit key)
      then (if read_nat key < length args then args ! read_nat key else JUndefined)
      else JUndefined)"

text \<open>The callback given to \<^verbatim>\<open>replace\<close>.\<close>

definition replacer :: "jsvalue list \<Rightarrow> string \<Rightarrow> string \<Rightarrow> js_error + string" where
  "replacer args match number =
     (if js_array_get args number \<noteq> JUndefined
      then js_toString (js_array_get args number)
      else Inr match)"

text \<open>
  \<^verbatim>\<open>str.replace(/{(\d+)}/g, callback)\<close>: scan from the left; where the pattern
  matches, call the callback and go on after the match, otherwise copy one character.
\<close>

function i18n_format :: "string \<Rightarrow> jsvalue list \<Rightarrow> js_error + string" where
  "i18n_format [] args = Inr []"
| "i18n_format (c # cs) args =
     (case match_placeholder (c # cs) of
        Some (number, rest) \<Rightarrow>
          (case replacer args (CHR ''{'' # number @ ''}'') number of
             Inl e \<Rightarrow> Inl e
           | Inr r \<Rightarrow>
               (case i18n_format rest args of
                  Inl e \<Rightarrow> Inl e
                | Inr out \<Rightarrow> Inr (r @ out)))
      | None \<Rightarrow>
          (case i18n_format cs args of
             Inl e \<Rightarrow> Inl e
           | Inr out \<Rightarrow> Inr (c # out)))"
  by pat_completeness auto
termination
proof (relation "measure (\<lambda>(s, args). length s)")
  show "wf (measure (\<lambda>(s, args). length s))" by simp
next
  fix c :: char and cs :: string and args :: "jsvalue list" and x2 number rest r
  assume m: "match_placeholder (c # cs) = Some x2" and x: "(number, rest) = x2"
  from m x have "\<exists>r. dropWhile is_digit cs = r # rest"
    by (auto simp: match_placeholder_def split: if_splits list.splits)
  then obtain r' where d: "dropWhile is_digit cs = r' # rest" by blast
  have "length (dropWhile is_digit cs) \<le> length cs" by (rule length_dropWhile_le)
  with d have "length rest < length (c # cs)" by simp
  then show "((rest, args), (c # cs, args)) \<in> measure (\<lambda>(s, args). length s)" by simp
next
  fix c :: char and cs :: string and args :: "jsvalue list"
  show "((cs, args), (c # cs, args)) \<in> measure (\<lambda>(s, args). length s)" by simp
qed

text \<open>
  The loaded messages are a plain object, the result of \<^verbatim>\<open>JSON.parse\<close> (or the
  initial \<^verbatim>\<open>{}\<close>): its own properties, which hold strings, and behind them the
  members every object inherits from \<^verbatim>\<open>Object.prototype\<close>. \<^verbatim>\<open>messages[key]\<close> finds
  an own property first, then an inherited member (a function, or an object for
  \<^verbatim>\<open>__proto__\<close>), and is \<^verbatim>\<open>undefined\<close> otherwise.
\<close>

definition object_prototype_members :: "string list" where
  "object_prototype_members =
     [''constructor'', ''hasOwnProperty'', ''isPrototypeOf'', ''propertyIsEnumerable'',
      ''toLocaleString'', ''toString'', ''valueOf'', ''__proto__'',
      ''__defineGetter__'', ''__defineSetter__'', ''__lookupGetter__'', ''__lookupSetter__'']"

definition messages_get :: "(string \<rightharpoonup> string) \<Rightarrow> string \<Rightarrow> jsvalue" where
  "messages_get messages key =
     (case messages key of
        Some s \<Rightarrow> JStr s
      | None \<Rightarrow> if key \<in> set object_prototype_members then JObject else JUndefined)"

text \<open>
  \<^verbatim>\<open>t(key, ...args)\<close>. The text is returned as it is when there are no arguments,
  whatever it is; with arguments \<^verbatim>\<open>format\<close> calls \<^verbatim>\<open>str.replace\<close>, which only a
  string has.
\<close>

definition i18n_t :: "(string \<rightharpoonup> string) \<Rightarrow> string \<Rightarrow> jsvalue list \<Rightarrow> js_error + jsvalue" where
  "i18n_t messages key args =
     (let text = js_or (messages_get messages key) (JStr [])
      in if args \<noteq> []
         then (case text of
                 JStr s \<Rightarrow> (case i18n_format s args of Inl e \<Rightarrow> Inl e | Inr out \<Rightarrow> Inr (JStr out))
               | _ \<Rightarrow> Inl TypeError)
         else Inr text)"

section \<open>Concrete configurations\<close>

text \<open>A configuration given by the settings it holds, each as namespace, key and value.\<close>

definition config_of :: "(namespace \<times> string \<times> jsvalue) list \<Rightarrow> configuration" where
  "config_of entries =
     foldl (\<lambda>cfg (ns, key, v). cfg_update cfg ns key v False) empty_configuration entries"

text \<open>
  A table of two tag systems. The one under \<^verbatim>\<open>bcp47\<close> hands back a non-empty
  input unchanged and otherwise its fallback, \<^verbatim>\<open>en\<close> when none is given; the one
  under \<^verbatim>\<open>none\<close> hands back its input whatever it is.
\<close>

definition echo_system :: tag_system where
  "echo_system =
     \<lparr> normalize = (\<lambda>locale fallback strict.
          js_or locale (if fallback = JUndefined then JStr ''en'' else fallback)) \<rparr>"

definition verbatim_system :: tag_system where
  "verbatim_system = \<lparr> normalize = (\<lambda>locale fallback strict. locale) \<rparr>"

definition sample_tag_systems :: tag_systems where
  "sample_tag_systems = [''bcp47'' \<mapsto> echo_system, ''none'' \<mapsto> verbatim_system]"

section \<open>Facts about the configuration store\<close>

lemmas store_simps = cfg_get_def cfg_update_def getConfig_def getConfig_in_def
  config_of_def empty_configuration_def

lemma getConfig_after_setConfig:
  "v \<noteq> JUndefined \<Longrightarrow> getConfig (setConfig cfg key v g) key = v"
  by (simp add: setConfig_def setConfig_calls_def store_simps)

lemma stored_after_setConfig: "stored (setConfig cfg key v g) key = v"
  by (simp add: stored_def setConfig_def setConfig_calls_def store_simps)

lemma ignoredLocales_after_setConfig:
  "ignoredLocales (setConfig cfg ''ignoredLocales'' (JArr ys) g) = ys"
  by (simp add: ignoredLocales_def setConfig_def setConfig_calls_def store_simps)

section \<open>Legacy namespace: reading and migrating\<close>

text \<open>
  What of the reading and the migration holds for every key: if \<^verbatim>\<open>k\<close> reads as
  \<^verbatim>\<open>undefined\<close> under the current namespace, \<^verbatim>\<open>getConfig(k)\<close> is the legacy value
  of \<^verbatim>\<open>k\<close>; \<^verbatim>\<open>setConfig(k, v)\<close> always writes \<^verbatim>\<open>v\<close> under the current namespace,
  and where the legacy value is truthy it clears \<^verbatim>\<open>k\<close> in the legacy namespace first.
\<close>

lemma getConfig_legacy_fallback:
  "cfg_get cfg EXT_NAMESPACE None k = JUndefined \<Longrightarrow>
     getConfig cfg k = cfg_get cfg EXT_LEGACY_NAMESPACE None k"
  by (simp add: store_simps)

lemma setConfig_writes_current: "cfg_get (setConfig cfg k v g) EXT_NAMESPACE None k = v"
  by (simp add: setConfig_def setConfig_calls_def store_simps)

lemma setConfig_migrates_truthy_legacy_value:
  "truthy (cfg_get cfg EXT_LEGACY_NAMESPACE None k) \<Longrightarrow>
     setConfig_calls cfg k v g =
       [Update EXT_LEGACY_NAMESPACE k JUndefined g, Update EXT_NAMESPACE k v g]
     \<and> cfg_get (setConfig cfg k v g) EXT_LEGACY_NAMESPACE None k = JUndefined"
  by (simp add: setConfig_def setConfig_calls_def store_simps)

text \<open>
  A legacy value that \<^verbatim>\<open>setConfig\<close> left in place is served again by \<^verbatim>\<open>getConfig\<close>,
  which tests for \<^verbatim>\<open>undefined\<close> and not for truthiness, as soon as the current value
  is removed.
\<close>

lemma falsy_legacy_value_resurfaces:
  "getConfig (setConfig (setConfig (config_of [(EXT_LEGACY_NAMESPACE, ''annotations'', JBool False)])
                           ''annotations'' (JBool True) True)
                ''annotations'' JUndefined True)
     ''annotations'' = JBool False"
  by (simp add: setConfig_def setConfig_calls_def store_simps)

text \<open>
  Claim C1, at the input where the code departs from it. Every \<^verbatim>\<open>setConfig(k, v)\<close> is
  to clear \<^verbatim>\<open>k\<close> in the legacy namespace before it writes \<^verbatim>\<open>v\<close>. The legacy
  settings hold \<^verbatim>\<open>annotations: false\<close>; after \<^verbatim>\<open>setConfig('annotations', true, true)\<close>
  they still do. The block that is to transfer the legacy setting is guarded by a test
  of the legacy value for truthiness, where \<^verbatim>\<open>getConfig\<close> tests it for
  \<^verbatim>\<open>undefined\<close>: a legacy \<^verbatim>\<open>false\<close>, \<^verbatim>\<open>0\<close> or empty string is read and never
  migrated.
\<close>

theorem setConfig_keeps_falsy_legacy_value:
  "cfg_get (setConfig (config_of [(EXT_LEGACY_NAMESPACE, ''annotations'', JBool False)])
              ''annotations'' (JBool True) True)
     EXT_LEGACY_NAMESPACE None ''annotations'' = JBool False"
  by (simp add: setConfig_def setConfig_calls_def store_simps)

section \<open>Key style\<close>

text \<open>
  Claim C2, where it fails. With no \<^verbatim>\<open>keystyle\<close> configured and
  \<^verbatim>\<open>disablePathParsing\<close> true the claim's first case does not apply (the configured
  style is not \<^verbatim>\<open>auto\<close>, there is none) and its second case gives \<^verbatim>\<open>auto\<close>; the
  getter returns \<^verbatim>\<open>flat\<close>, since the default is put in before the test.
\<close>

theorem keyStyle_unset_with_disablePathParsing:
  "getConfig (config_of [(EXT_NAMESPACE, ''disablePathParsing'', JBool True)]) ''keystyle'' = JUndefined
   \<and> Config_keyStyle (config_of [(EXT_NAMESPACE, ''disablePathParsing'', JBool True)]) = JStr ''flat''"
  by (simp add: Config_keyStyle_def disablePathParsing_def js_or_def js_nullish_def store_simps)

text \<open>
  Claim C2, amended. If the configured \<^verbatim>\<open>keystyle\<close> is \<^verbatim>\<open>auto\<close> or none is
  configured, \<^verbatim>\<open>_keyStyle\<close> returns \<^verbatim>\<open>flat\<close> when \<^verbatim>\<open>disablePathParsing\<close> is true
  and \<^verbatim>\<open>auto\<close> when it is false or not configured; any other configured style is
  returned as it is, if it is not the empty string.
\<close>

theorem keyStyle_cases:
  "((getConfig cfg ''keystyle'' = JUndefined \<or> getConfig cfg ''keystyle'' = JStr ''auto'')
      \<and> getConfig cfg ''disablePathParsing'' = JBool True \<longrightarrow>
     Config_keyStyle cfg = JStr ''flat'')
   \<and> ((getConfig cfg ''keystyle'' = JUndefined \<or> getConfig cfg ''keystyle'' = JStr ''auto'')
      \<and> (getConfig cfg ''disablePathParsing'' = JBool False
          \<or> getConfig cfg ''disablePathParsing'' = JUndefined) \<longrightarrow>
     Config_keyStyle cfg = JStr ''auto'')
   \<and> (getConfig cfg ''keystyle'' = JStr style \<and> style \<noteq> [] \<and> style \<noteq> ''auto'' \<longrightarrow>
     Config_keyStyle cfg = JStr style)"
  by (auto simp add: Config_keyStyle_def Let_def js_or_def disablePathParsing_def js_nullish_def)

theorem keyStyle_cases_witness:
  "Config_keyStyle (config_of [(EXT_NAMESPACE, ''keystyle'', JStr ''auto''),
                               (EXT_NAMESPACE, ''disablePathParsing'', JBool True)]) = JStr ''flat''
   \<and> Config_keyStyle (config_of []) = JStr ''auto''
   \<and> Config_keyStyle (config_of [(EXT_NAMESPACE, ''keystyle'', JStr ''nested''),
                               (EXT_NAMESPACE, ''disablePathParsing'', JBool True)]) = JStr ''nested''"
  using keyStyle_cases
          [of "config_of [(EXT_NAMESPACE, ''keystyle'', JStr ''auto''),
                          (EXT_NAMESPACE, ''disablePathParsing'', JBool True)]" "''nested''"]
        keyStyle_cases [of "config_of []" "''nested''"]
        keyStyle_cases
          [of "config_of [(EXT_NAMESPACE, ''keystyle'', JStr ''nested''),
                          (EXT_NAMESPACE, ''disablePathParsing'', JBool True)]" "''nested''"]
  by (simp add: store_simps)

section \<open>Parallel translations\<close>

text \<open>
  Claim C3, where it fails. The claim returns the configured value whenever one is set;
  with \<^verbatim>\<open>translate.parallels\<close> set to \<^verbatim>\<open>0\<close> the getter returns \<^verbatim>\<open>5\<close>.
\<close>

theorem translateParallels_zero_configured:
  "getConfig (config_of [(EXT_NAMESPACE, ''translate.parallels'', JNum 0)]) ''translate.parallels'' = JNum 0
   \<and> translateParallels (config_of [(EXT_NAMESPACE, ''translate.parallels'', JNum 0)]) = JNum 5"
  by (simp add: translateParallels_def js_or_def store_simps)

text \<open>
  Claim C3, amended. \<^verbatim>\<open>translateParallels\<close> returns the configured
  \<^verbatim>\<open>translate.parallels\<close> whenever that is a number other than zero, and \<^verbatim>\<open>5\<close> when
  the option is not configured or is zero.
\<close>

theorem translateParallels_default:
  "(getConfig cfg ''translate.parallels'' = JNum n \<and> n \<noteq> 0 \<longrightarrow>
      translateParallels cfg = JNum n)
   \<and> (getConfig cfg ''translate.parallels'' = JUndefined
        \<or> getConfig cfg ''translate.parallels'' = JNum 0 \<longrightarrow>
      translateParallels cfg = JNum 5)"
  by (auto simp add: translateParallels_def js_or_def)

theorem translateParallels_default_witness:
  "translateParallels (config_of [(EXT_NAMESPACE, ''translate.parallels'', JNum 2)]) = JNum 2
   \<and> translateParallels (config_of []) = JNum 5"
  using translateParallels_default [of "config_of [(EXT_NAMESPACE, ''translate.parallels'', JNum 2)]" 2]
        translateParallels_default [of "config_of []" 0]
  by (simp add: store_simps)

section \<open>Tag system selection\<close>

text \<open>
  Claim C5, where it fails. With \<^verbatim>\<open>languageTagSystem\<close> configured as the empty string
  the claim selects what the table holds under that name, which is nothing; the getter
  selects the tag system under \<^verbatim>\<open>bcp47\<close>.
\<close>

theorem tagSystem_empty_name_configured:
  "getConfig (config_of [(EXT_NAMESPACE, ''languageTagSystem'', JStr [])]) ''languageTagSystem'' = JStr []
   \<and> tagSystem (config_of [(EXT_NAMESPACE, ''languageTagSystem'', JStr [])]) sample_tag_systems
       = sample_tag_systems ''bcp47''
   \<and> tagSystem (config_of [(EXT_NAMESPACE, ''languageTagSystem'', JStr [])]) sample_tag_systems
       \<noteq> sample_tag_systems []"
  by (simp add: tagSystem_def js_or_def store_simps sample_tag_systems_def)

text \<open>
  Claim C5, amended. When \<^verbatim>\<open>languageTagSystem\<close> is not configured, or is configured
  as the empty string, \<^verbatim>\<open>tagSystem\<close> is the entry of the table under \<^verbatim>\<open>bcp47\<close>;
  when it is configured as a non-empty name, it is the entry of the table under that name.
\<close>

theorem tagSystem_selection:
  "(getConfig cfg ''languageTagSystem'' = JUndefined
      \<or> getConfig cfg ''languageTagSystem'' = JStr [] \<longrightarrow>
      tagSystem cfg TagSystems = TagSystems ''bcp47'')
   \<and> (getConfig cfg ''languageTagSystem'' = JStr name \<and> name \<noteq> [] \<longrightarrow>
      tagSystem cfg TagSystems = TagSystems name)"
  by (auto simp add: tagSystem_def js_or_def)

theorem tagSystem_selection_witness:
  "tagSystem (config_of []) sample_tag_systems = Some echo_system
   \<and> tagSystem (config_of [(EXT_NAMESPACE, ''languageTagSystem'', JStr ''none'')]) sample_tag_systems
       = Some verbatim_system"
  using tagSystem_selection [of "config_of []" sample_tag_systems "''none''"]
        tagSystem_selection [of "config_of [(EXT_NAMESPACE, ''languageTagSystem'', JStr ''none'')]"
                                sample_tag_systems "''none''"]
  by (simp add: store_simps sample_tag_systems_def)

section \<open>Source language\<close>

text \<open>
  Claim C9. \<^verbatim>\<open>sourceLanguage\<close> never returns an empty value: whatever it returns is
  truthy. Where the selected tag system exists, it returns the normalised configured
  source language if that is not empty, else the normalised display language if that is
  not empty, else \<^verbatim>\<open>en\<close>. A source language that is not configured is normalised
  from the empty string with the empty fallback; a tag system that hands the empty
  fallback back makes the getter fall back to the display language in that case too.
  Where the selected tag system does not exist the getter raises and returns nothing.
\<close>

theorem sourceLanguage_never_empty:
  "(\<forall>v. sourceLanguage cfg TagSystems = Inr v \<longrightarrow> truthy v)
   \<and> (tagSystem cfg TagSystems = Some ts \<longrightarrow>
        sourceLanguage cfg TagSystems =
          Inr (if truthy (normalize ts (js_or (getConfig cfg ''sourceLanguage'') (JStr [])) (JStr []) JUndefined)
               then normalize ts (js_or (getConfig cfg ''sourceLanguage'') (JStr [])) (JStr []) JUndefined
               else if truthy (normalize ts (js_or (getConfig cfg ''displayLanguage'') (JStr [])) JUndefined JUndefined)
               then normalize ts (js_or (getConfig cfg ''displayLanguage'') (JStr [])) JUndefined JUndefined
               else JStr ''en''))
   \<and> (tagSystem cfg TagSystems = Some ts \<and> getConfig cfg ''sourceLanguage'' = JUndefined
        \<and> normalize ts (JStr []) (JStr []) JUndefined = JStr [] \<longrightarrow>
        sourceLanguage cfg TagSystems =
          Inr (js_or (normalize ts (js_or (getConfig cfg ''displayLanguage'') (JStr [])) JUndefined JUndefined)
                     (JStr ''en'')))"
proof (cases "tagSystem cfg TagSystems")
  case None
  then show ?thesis
    by (simp add: sourceLanguage_def normalizeLocale_def)
next
  case (Some t)
  then show ?thesis
    by (simp add: sourceLanguage_def displayLanguage_def normalizeLocale_def js_or_def)
qed

theorem sourceLanguage_never_empty_witness:
  "sourceLanguage (config_of [(EXT_NAMESPACE, ''displayLanguage'', JStr ''fr'')]) sample_tag_systems
     = Inr (JStr ''fr'')
   \<and> sourceLanguage (config_of [(EXT_NAMESPACE, ''languageTagSystem'', JStr ''none'')]) sample_tag_systems
     = Inr (JStr ''en'')
   \<and> truthy (JStr ''en'')"
proof -
  let ?c1 = "config_of [(EXT_NAMESPACE, ''displayLanguage'', JStr ''fr'')]"
  let ?c2 = "config_of [(EXT_NAMESPACE, ''languageTagSystem'', JStr ''none'')]"
  have t1: "tagSystem ?c1 sample_tag_systems = Some echo_system"
    by (simp add: store_simps tagSystem_def js_or_def sample_tag_systems_def)
  have t2: "tagSystem ?c2 sample_tag_systems = Some verbatim_system"
    by (simp add: store_simps tagSystem_def js_or_def sample_tag_systems_def)
  have g1: "getConfig ?c1 ''sourceLanguage'' = JUndefined"
           "getConfig ?c1 ''displayLanguage'' = JStr ''fr''"
    by (simp_all add: store_simps)
  have g2: "getConfig ?c2 ''sourceLanguage'' = JUndefined"
           "getConfig ?c2 ''displayLanguage'' = JUndefined"
    by (simp_all add: store_simps)
  have n1: "normalize echo_system (JStr []) (JStr []) JUndefined = JStr []"
           "normalize echo_system (JStr ''fr'') JUndefined JUndefined = JStr ''fr''"
    by (simp_all add: echo_system_def js_or_def)
  have n2: "normalize verbatim_system (JStr []) (JStr []) JUndefined = JStr []"
           "normalize verbatim_system (JStr []) JUndefined JUndefined = JStr []"
    by (simp_all add: verbatim_system_def)
  have o: "js_or JUndefined (JStr []) = JStr []" "js_or (JStr ''fr'') (JStr []) = JStr ''fr''"
          "js_or (JStr ''fr'') (JStr ''en'') = JStr ''fr''" "js_or (JStr []) (JStr ''en'') = JStr ''en''"
    by (simp_all add: js_or_def)
  from sourceLanguage_never_empty [of ?c1 sample_tag_systems echo_system] t1 g1 n1 o
  have r1: "sourceLanguage ?c1 sample_tag_systems = Inr (JStr ''fr'')"
    by simp
  from sourceLanguage_never_empty [of ?c2 sample_tag_systems verbatim_system] t2 g2 n2 o
  have r2: "sourceLanguage ?c2 sample_tag_systems = Inr (JStr ''en'')"
    by simp
  from sourceLanguage_never_empty [of ?c2 sample_tag_systems verbatim_system] r2
  have "truthy (JStr ''en'')" by blast
  with r1 r2 show ?thesis by simp
qed

section \<open>Ignored locales\<close>

text \<open>
  Claim C10. After \<^verbatim>\<open>toggleLocaleVisibility(l, true)\<close> the stored list of ignored
  locales is the prior list without the occurrences of \<^verbatim>\<open>l\<close>, so \<^verbatim>\<open>l\<close> does not
  occur in it; after \<^verbatim>\<open>toggleLocaleVisibility(l, false)\<close> it is the prior list with
  \<^verbatim>\<open>l\<close> appended, so \<^verbatim>\<open>l\<close> occurs in it; the entries other than \<^verbatim>\<open>l\<close> are the
  same, in the same order, in both cases.
\<close>

theorem toggleLocaleVisibility_ignoredLocales:
  "stored (toggleLocaleVisibility cfg l (Some True)) ''ignoredLocales''
     = JArr (filter (\<lambda>i. i \<noteq> l) (ignoredLocales cfg))
   \<and> l \<notin> set (ignoredLocales (toggleLocaleVisibility cfg l (Some True)))
   \<and> stored (toggleLocaleVisibility cfg l (Some False)) ''ignoredLocales''
     = JArr (ignoredLocales cfg @ [l])
   \<and> l \<in> set (ignoredLocales (toggleLocaleVisibility cfg l (Some False)))
   \<and> filter (\<lambda>i. i \<noteq> l) (ignoredLocales (toggleLocaleVisibility cfg l (Some True)))
     = filter (\<lambda>i. i \<noteq> l) (ignoredLocales cfg)
   \<and> filter (\<lambda>i. i \<noteq> l) (ignoredLocales (toggleLocaleVisibility cfg l (Some False)))
     = filter (\<lambda>i. i \<noteq> l) (ignoredLocales cfg)"
  by (simp add: toggleLocaleVisibility_def ignoredLocales_after_setConfig stored_after_setConfig)

theorem toggleLocaleVisibility_ignoredLocales_witness:
  "stored (toggleLocaleVisibility (config_of [(EXT_NAMESPACE, ''ignoredLocales'', JArr [''fr'', ''de'', ''fr''])])
             ''fr'' (Some True)) ''ignoredLocales'' = JArr [''de'']
   \<and> stored (toggleLocaleVisibility (config_of [(EXT_NAMESPACE, ''ignoredLocales'', JStr ''de'')])
             ''fr'' (Some False)) ''ignoredLocales'' = JArr [''de'', ''fr'']"
  using toggleLocaleVisibility_ignoredLocales
          [of "config_of [(EXT_NAMESPACE, ''ignoredLocales'', JArr [''fr'', ''de'', ''fr''])]" "''fr''"]
        toggleLocaleVisibility_ignoredLocales
          [of "config_of [(EXT_NAMESPACE, ''ignoredLocales'', JStr ''de'')]" "''fr''"]
  by (simp add: ignoredLocales_def store_simps)

section \<open>Lists without duplicates, cleaned paths, splitting and joining\<close>

lemma set_uniq_into: "set (uniq_into seen xs) = set seen \<union> set xs"
  by (induction xs arbitrary: seen) auto

lemma distinct_uniq_into: "distinct seen \<Longrightarrow> distinct (uniq_into seen xs)"
  by (induction xs arbitrary: seen) auto

lemma uniq_into_append: "uniq_into seen (xs @ ys) = uniq_into (uniq_into seen xs) ys"
  by (induction xs arbitrary: seen) auto

lemma uniq_into_absorb: "set xs \<subseteq> set seen \<Longrightarrow> uniq_into seen xs = seen"
  by (induction xs arbitrary: seen) auto

lemma uniq_into_distinct: "distinct (seen @ xs) \<Longrightarrow> uniq_into seen xs = seen @ xs"
  by (induction xs arbitrary: seen) auto

lemma remdups_skip: "x \<in> set bs \<Longrightarrow> remdups (as @ x # bs) = remdups (as @ bs)"
  by (induction as) auto

lemma uniq_into_first_kept:
  "distinct seen \<Longrightarrow> uniq_into seen xs = rev (remdups (rev (seen @ xs)))"
proof (induction xs arbitrary: seen)
  case Nil
  then show ?case by (simp add: distinct_remdups_id)
next
  case (Cons x xs)
  show ?case
  proof (cases "x \<in> set seen")
    case True
    then have "remdups (rev xs @ x # rev seen) = remdups (rev xs @ rev seen)"
      by (intro remdups_skip) simp
    with True Cons show ?thesis by simp
  next
    case False
    with Cons.prems have "distinct (seen @ [x])" by simp
    from Cons.IH [OF this] False show ?thesis by simp
  qed
qed

lemma distinct_uniq: "distinct (uniq xs)"
  by (simp add: uniq_def distinct_uniq_into)

lemma set_uniq: "set (uniq xs) = set xs"
  by (simp add: uniq_def set_uniq_into)

lemma uniq_first_kept: "uniq xs = rev (remdups (rev xs))"
  using uniq_into_first_kept [of "[]" xs] by (simp add: uniq_def)

lemma uniq_absorb: "distinct s \<Longrightarrow> set q \<subseteq> set s \<Longrightarrow> uniq (s @ q) = s"
  by (simp add: uniq_def uniq_into_append uniq_into_distinct uniq_into_absorb)

lemma trimEnd_fixed: "s = [] \<or> last s \<notin> set chars \<Longrightarrow> trimEnd s chars = s"
  by (cases s rule: rev_cases) (auto simp: trimEnd_def)

lemma trimEnd_last: "trimEnd s chars = [] \<or> last (trimEnd s chars) \<notin> set chars"
proof (cases "dropWhile (\<lambda>c. c \<in> set chars) (rev s)")
  case Nil
  then show ?thesis by (simp add: trimEnd_def)
next
  case (Cons a as)
  then have "\<not> a \<in> set chars"
    using hd_dropWhile [of "\<lambda>c. c \<in> set chars" "rev s"] by simp
  with Cons show ?thesis by (simp add: trimEnd_def)
qed

lemma backslash_neq_slash: "backslash \<noteq> CHR ''/''"
  by (simp add: backslash_def)

lemma clean_path_last: "clean_path p = [] \<or> last (clean_path p) \<notin> {CHR ''/'', backslash}"
  using trimEnd_last [of p "[CHR ''/'', backslash]"]
  by (auto simp: clean_path_def replace_backslashes_def last_map backslash_neq_slash)

lemma clean_path_no_backslash: "backslash \<notin> set (clean_path p)"
  by (auto simp: clean_path_def replace_backslashes_def backslash_neq_slash)

lemma replace_backslashes_fixed: "backslash \<notin> set s \<Longrightarrow> replace_backslashes s = s"
  by (induction s) (auto simp: replace_backslashes_def)

lemma clean_path_fixed_iff:
  "clean_path p = p \<longleftrightarrow> backslash \<notin> set p \<and> (p = [] \<or> last p \<noteq> CHR ''/'')"
proof
  assume "clean_path p = p"
  with clean_path_last [of p] clean_path_no_backslash [of p]
  show "backslash \<notin> set p \<and> (p = [] \<or> last p \<noteq> CHR ''/'')" by auto
next
  assume a: "backslash \<notin> set p \<and> (p = [] \<or> last p \<noteq> CHR ''/'')"
  then have "p = [] \<or> last p \<notin> set [CHR ''/'', backslash]"
    by (cases p rule: rev_cases) auto
  then have "trimEnd p [CHR ''/'', backslash] = p" by (rule trimEnd_fixed)
  with a show "clean_path p = p" by (simp add: clean_path_def replace_backslashes_fixed)
qed

lemma clean_path_idem: "clean_path (clean_path p) = clean_path p"
  using clean_path_last [of p] clean_path_no_backslash [of p]
  by (auto simp add: clean_path_fixed_iff)

lemma js_split_nonempty: "js_split sep s \<noteq> []"
  by (induction s) (auto split: list.splits)

lemma js_split_no_sep: "sep \<notin> set p \<Longrightarrow> js_split sep p = [p]"
  by (induction p) auto

lemma js_split_piece: "sep \<notin> set p \<Longrightarrow> js_split sep (p @ sep # rest) = p # js_split sep rest"
  by (induction p) auto

lemma js_split_join:
  "ps \<noteq> [] \<Longrightarrow> \<forall>p\<in>set ps. sep \<notin> set p \<Longrightarrow> js_split sep (js_join [sep] ps) = ps"
  by (induction "[sep]" ps rule: js_join.induct) (auto simp: js_split_no_sep js_split_piece)

lemma js_join_empty_iff: "js_join [sep] ps = [] \<longleftrightarrow> ps = [] \<or> ps = [[]]"
  by (induction "[sep]" ps rule: js_join.induct) auto

lemma trimEnd_decomp: "\<exists>t. s = trimEnd s chars @ t \<and> set t \<subseteq> set chars"
proof -
  let ?P = "\<lambda>c. c \<in> set chars"
  have "trimEnd s chars @ rev (takeWhile ?P (rev s)) = rev (takeWhile ?P (rev s) @ dropWhile ?P (rev s))"
    by (simp only: trimEnd_def rev_append)
  also have "\<dots> = s"
    by (simp only: takeWhile_dropWhile_id rev_rev_ident)
  finally have "s = trimEnd s chars @ rev (takeWhile ?P (rev s))" by (rule sym)
  moreover have "set (rev (takeWhile ?P (rev s))) \<subseteq> set chars"
    by (auto dest: set_takeWhileD)
  ultimately show ?thesis by blast
qed

lemma clean_path_shape:
  "\<exists>kept t. p = kept @ t \<and> set t \<subseteq> {CHR ''/'', backslash}
      \<and> (kept = [] \<or> last kept \<notin> {CHR ''/'', backslash})
      \<and> clean_path p = map (\<lambda>c. if c = backslash then CHR ''/'' else c) kept"
proof -
  obtain t where t: "p = trimEnd p [CHR ''/'', backslash] @ t" "set t \<subseteq> set [CHR ''/'', backslash]"
    using trimEnd_decomp by blast
  have "trimEnd p [CHR ''/'', backslash] = [] \<or> last (trimEnd p [CHR ''/'', backslash]) \<notin> set [CHR ''/'', backslash]"
    by (rule trimEnd_last)
  with t show ?thesis
    by (intro exI [of _ "trimEnd p [CHR ''/'', backslash]"] exI [of _ t])
       (simp add: clean_path_def replace_backslashes_def)
qed

lemma Config_localesPaths_clean:
  assumes "Config_localesPaths cfg = Inr current"
  shows "\<forall>p\<in>set (or_empty current). clean_path p = p"
proof (cases "truthy (getConfig cfg ''localesPaths'')")
  case False
  with assms show ?thesis by (auto simp: Config_localesPaths_def or_empty_def)
next
  case True
  with assms show ?thesis
    by (cases "getConfig cfg ''localesPaths''")
       (auto simp: Config_localesPaths_def or_empty_def clean_path_idem)
qed

lemma Config_localesPaths_array:
  "getConfig cfg ''localesPaths'' = JArr xs \<Longrightarrow> Config_localesPaths cfg = Inr (Some (map clean_path xs))"
  by (simp add: Config_localesPaths_def)

lemma or_empty_Some: "or_empty (Some ps) = ps"
  by (simp add: or_empty_def)

lemma updateLocalesPaths_run:
  "Config_localesPaths cfg = Inr current \<Longrightarrow>
     updateLocalesPaths cfg Q = Inr (setConfig cfg ''localesPaths'' (JArr (uniq (or_empty current @ Q))) False)"
  by (simp add: updateLocalesPaths_def)


lemma stored_paths_clean:
  assumes "Config_localesPaths cfg = Inr current" and clean: "\<forall>q\<in>set Q. clean_path q = q"
  shows "map clean_path (uniq (or_empty current @ Q)) = uniq (or_empty current @ Q)"
proof -
  let ?S = "uniq (or_empty current @ Q)"
  have "clean_path p = p" if "p \<in> set ?S" for p
  proof -
    from that have "p \<in> set (or_empty current) \<or> p \<in> set Q"
      by (simp add: set_uniq)
    with Config_localesPaths_clean [OF assms(1)] clean show ?thesis by blast
  qed
  then show ?thesis
    by (rule map_idI)
qed


lemma getConfig_after_write_paths: "getConfig (setConfig cfg ''localesPaths'' (JArr S) False) ''localesPaths'' = JArr S"
  by (rule getConfig_after_setConfig) simp

lemma Config_localesPaths_after_write:
  assumes "Config_localesPaths cfg = Inr current" and clean: "\<forall>q\<in>set Q. clean_path q = q"
  shows "Config_localesPaths (setConfig cfg ''localesPaths'' (JArr (uniq (or_empty current @ Q))) False)
           = Inr (Some (uniq (or_empty current @ Q)))"
proof -
  let ?S = "uniq (or_empty current @ Q)"
  let ?cfg' = "setConfig cfg ''localesPaths'' (JArr ?S) False"
  have "Config_localesPaths ?cfg' = Inr (Some (map clean_path ?S))"
    using getConfig_after_write_paths by (rule Config_localesPaths_array)
  then show ?thesis
    by (simp only: stored_paths_clean [OF assms])
qed


lemma updateLocalesPaths_again:
  assumes "Config_localesPaths cfg = Inr current" and clean: "\<forall>q\<in>set Q. clean_path q = q"
    and sub: "set Q' \<subseteq> set (uniq (or_empty current @ Q))"
  shows "stored_after (updateLocalesPaths
            (setConfig cfg ''localesPaths'' (JArr (uniq (or_empty current @ Q))) False) Q') ''localesPaths''
           = Inr (JArr (uniq (or_empty current @ Q)))"
proof -
  let ?S = "uniq (or_empty current @ Q)"
  let ?cfg' = "setConfig cfg ''localesPaths'' (JArr ?S) False"
  have "uniq (?S @ Q') = ?S"
    using distinct_uniq [of "or_empty current @ Q"] sub by (rule uniq_absorb)
  then have u: "uniq (or_empty (Some ?S) @ Q') = ?S"
    by (simp only: or_empty_Some)
  have "updateLocalesPaths ?cfg' Q'
          = Inr (setConfig ?cfg' ''localesPaths'' (JArr (uniq (or_empty (Some ?S) @ Q'))) False)"
    using Config_localesPaths_after_write [OF assms(1,2)] by (rule updateLocalesPaths_run)
  then have "updateLocalesPaths ?cfg' Q' = Inr (setConfig ?cfg' ''localesPaths'' (JArr ?S) False)"
    by (simp only: u)
  then show ?thesis
    by (simp only: stored_after_def sum.case stored_after_setConfig)
qed

lemma read_localesPaths_string:
  assumes "ps \<noteq> []" "ps \<noteq> [[]]" "\<forall>p\<in>set ps. CHR '','' \<notin> set p"
    and "v = JStr (js_join '','' ps)"
  shows "(if \<not> truthy v then Inr None
         else (case v of
                 JStr s \<Rightarrow> Inr (Some (map clean_path (js_split CHR '','' s)))
               | JArr xs \<Rightarrow> Inr (Some (map clean_path xs))
               | _ \<Rightarrow> Inl TypeError)) = (Inr (Some (map clean_path ps)) :: js_error + string list option)"
proof -
  from assms(1,2) have "js_join '','' ps \<noteq> []"
    using js_join_empty_iff [of "CHR '',''" ps] by simp
  moreover from assms(1,3) have "js_split CHR '','' (js_join '','' ps) = ps"
    using js_split_join [of ps "CHR '',''"] by simp
  ultimately show ?thesis using assms(4) by simp
qed

section \<open>Adding locale paths\<close>

text \<open>
  What of the deduplication holds. Where the getter \<^verbatim>\<open>_localesPaths\<close> yields the list
  \<^verbatim>\<open>P\<close> (the empty list when it yields \<^verbatim>\<open>undefined\<close>), \<^verbatim>\<open>updateLocalesPaths(Q)\<close>
  stores the concatenation of \<^verbatim>\<open>P\<close> and \<^verbatim>\<open>Q\<close> with the first occurrence of each
  string kept: no string is stored twice, which is less than no path being stored twice,
  since the paths of \<^verbatim>\<open>Q\<close> are compared as they are given. Only if every path of
  \<^verbatim>\<open>Q\<close> is clean already does a further call with paths already present leave the
  stored list unchanged.
\<close>

lemma updateLocalesPaths_deduplicates:
  assumes "Config_localesPaths cfg = Inr current"
  shows "stored_after (updateLocalesPaths cfg Q) ''localesPaths''
           = Inr (JArr (uniq (or_empty current @ Q)))
         \<and> distinct (uniq (or_empty current @ Q))
         \<and> set (uniq (or_empty current @ Q)) = set (or_empty current) \<union> set Q
         \<and> uniq (or_empty current @ Q) = rev (remdups (rev (or_empty current @ Q)))
         \<and> (updateLocalesPaths cfg Q = Inr cfg' \<and> (\<forall>q\<in>set Q. clean_path q = q)
              \<and> set Q' \<subseteq> set (uniq (or_empty current @ Q)) \<longrightarrow>
              stored_after (updateLocalesPaths cfg' Q') ''localesPaths''
                = Inr (JArr (uniq (or_empty current @ Q))))"
proof -
  let ?S = "uniq (or_empty current @ Q)"
  let ?next = "setConfig cfg ''localesPaths'' (JArr ?S) False"
  have run: "updateLocalesPaths cfg Q = Inr ?next"
    using assms by (rule updateLocalesPaths_run)
  have st: "stored_after (updateLocalesPaths cfg Q) ''localesPaths'' = Inr (JArr ?S)"
    by (simp only: run stored_after_def sum.case stored_after_setConfig)
  have d: "distinct ?S"
    by (rule distinct_uniq)
  have e: "set ?S = set (or_empty current) \<union> set Q"
    by (simp add: set_uniq)
  have f: "?S = rev (remdups (rev (or_empty current @ Q)))"
    by (rule uniq_first_kept)
  have a: "updateLocalesPaths cfg Q = Inr cfg' \<and> (\<forall>q\<in>set Q. clean_path q = q) \<and> set Q' \<subseteq> set ?S \<longrightarrow>
             stored_after (updateLocalesPaths cfg' Q') ''localesPaths'' = Inr (JArr ?S)"
  proof (intro impI, elim conjE)
    assume "updateLocalesPaths cfg Q = Inr cfg'"
    with run have c: "cfg' = ?next" by simp
    assume "\<forall>q\<in>set Q. clean_path q = q" and "set Q' \<subseteq> set ?S"
    with assms show "stored_after (updateLocalesPaths cfg' Q') ''localesPaths'' = Inr (JArr ?S)"
      unfolding c by (rule updateLocalesPaths_again)
  qed
  show ?thesis
    by (rule conjI [OF st conjI [OF d conjI [OF e conjI [OF f a]]]])
qed

lemma updateLocalesPaths_deduplicates_example:
  "stored_after (updateLocalesPaths (config_of [(EXT_NAMESPACE, ''localesPaths'', JStr ''locales,src/i18n/'')])
                   [''src/i18n'', ''lang'']) ''localesPaths''
     = Inr (JArr [''locales'', ''src/i18n'', ''lang''])
   \<and> stored_after
        (updateLocalesPaths
           (setConfig (config_of [(EXT_NAMESPACE, ''localesPaths'', JStr ''locales,src/i18n/'')])
              ''localesPaths'' (JArr [''locales'', ''src/i18n'', ''lang'']) False)
           [''lang'', ''locales'']) ''localesPaths''
     = Inr (JArr [''locales'', ''src/i18n'', ''lang''])"
proof -
  let ?c = "config_of [(EXT_NAMESPACE, ''localesPaths'', JStr ''locales,src/i18n/'')]"
  let ?next = "setConfig ?c ''localesPaths'' (JArr [''locales'', ''src/i18n'', ''lang'']) False"
  have p: "Config_localesPaths ?c = Inr (Some [''locales'', ''src/i18n''])"
    by (simp add: Config_localesPaths_def store_simps clean_path_def trimEnd_def
          replace_backslashes_def backslash_def)
  have u: "uniq (or_empty (Some [''locales'', ''src/i18n'']) @ [''src/i18n'', ''lang''])
             = [''locales'', ''src/i18n'', ''lang'']"
    by (simp add: uniq_def or_empty_def)
  have r: "updateLocalesPaths ?c [''src/i18n'', ''lang''] = Inr ?next"
    using updateLocalesPaths_run [OF p, of "[''src/i18n'', ''lang'']"] by (simp only: u)
  have c: "\<forall>q\<in>set [''src/i18n'', ''lang'']. clean_path q = q"
    by (simp add: clean_path_def trimEnd_def replace_backslashes_def backslash_def)
  have s: "set [''lang'', ''locales''] \<subseteq> set [''locales'', ''src/i18n'', ''lang'']"
    by simp
  note t = updateLocalesPaths_deduplicates
         [OF p, of "[''src/i18n'', ''lang'']" ?next "[''lang'', ''locales'']", unfolded u]
  from t have first: "stored_after (updateLocalesPaths ?c [''src/i18n'', ''lang'']) ''localesPaths''
                        = Inr (JArr [''locales'', ''src/i18n'', ''lang''])"
    by (rule conjunct1)
  from t r c s have second: "stored_after (updateLocalesPaths ?next [''lang'', ''locales'']) ''localesPaths''
                        = Inr (JArr [''locales'', ''src/i18n'', ''lang''])"
    by blast
  from first second show ?thesis
    by (rule conjI)
qed

text \<open>
  The two strings stored at the input below are one path to the getter, which reads the
  stored list back with the same path twice; so are a path and its spelling with a
  backslash.
\<close>

lemma localesPaths_read_back_twice:
  "Config_localesPaths (config_of [(EXT_NAMESPACE, ''localesPaths'', JArr [''locales'', ''locales/''])])
     = Inr (Some [''locales'', ''locales''])"
  by (simp add: Config_localesPaths_def store_simps clean_path_def trimEnd_def
        replace_backslashes_def backslash_def)

text \<open>
  Claim C4, at the input where the code departs from it. The stored list is never to
  hold the same path twice, and a call with paths already present is to leave it
  unchanged. The stored list is \<^verbatim>\<open>['locales/']\<close>, as a first call with that path
  leaves it. A second call with the same path stores \<^verbatim>\<open>['locales', 'locales/']\<close>: the
  getter cleans the stored paths when it reads them, and the paths passed in are
  concatenated as they are, before the duplicates are removed.
\<close>

theorem updateLocalesPaths_unclean_path_repeated:
  "stored_after (updateLocalesPaths (config_of []) [''locales/'']) ''localesPaths''
     = Inr (JArr [''locales/''])
   \<and> stored_after (updateLocalesPaths (config_of [(EXT_NAMESPACE, ''localesPaths'', JArr [''locales/''])])
                     [''locales/'']) ''localesPaths''
     = Inr (JArr [''locales'', ''locales/''])"
  by (simp add: stored_after_def updateLocalesPaths_def Config_localesPaths_def store_simps
        stored_after_setConfig or_empty_def uniq_def clean_path_def trimEnd_def
        replace_backslashes_def backslash_def)

section \<open>Locale paths as a string or as an array\<close>

text \<open>
  Claim C6, where it fails. A path may hold a comma: the array with the one path
  \<^verbatim>\<open>src/a,b\<close> reads as that path, and the string made of it reads as two paths.
\<close>

theorem localesPaths_path_with_comma:
  "Config_localesPaths (config_of [(EXT_NAMESPACE, ''localesPaths'', JStr (js_join '','' [''src/a,b'']))])
     = Inr (Some [''src/a'', ''b''])
   \<and> Config_localesPaths (config_of [(EXT_NAMESPACE, ''localesPaths'', JArr [''src/a,b''])])
     = Inr (Some [''src/a,b''])"
  by (simp add: Config_localesPaths_def store_simps clean_path_def trimEnd_def
        replace_backslashes_def backslash_def)

text \<open>
  Claim C6, amended. For every non-empty list of paths, none of which holds a comma and
  which is not the single empty path, \<^verbatim>\<open>_localesPaths\<close> and
  \<^verbatim>\<open>getLocalesPathsInScope\<close> read the comma-separated string of the paths and the
  array of the paths as the same list: each path with its trailing slashes and
  backslashes dropped and every backslash left in it replaced by a slash.
\<close>

theorem localesPaths_string_or_array:
  assumes "ps \<noteq> []" and "ps \<noteq> [[]]" and "\<forall>p\<in>set ps. CHR '','' \<notin> set p"
  shows "(getConfig cfg1 ''localesPaths'' = JStr (js_join '','' ps)
            \<and> getConfig cfg2 ''localesPaths'' = JArr ps \<longrightarrow>
          Config_localesPaths cfg1 = Inr (Some (map clean_path ps))
            \<and> Config_localesPaths cfg2 = Inr (Some (map clean_path ps)))
       \<and> (getConfig_in cfg1 ''localesPaths'' (Some sc) = JStr (js_join '','' ps)
            \<and> getConfig_in cfg2 ''localesPaths'' (Some sc) = JArr ps \<longrightarrow>
          getLocalesPathsInScope cfg1 sc = Inr (Some (map clean_path ps))
            \<and> getLocalesPathsInScope cfg2 sc = Inr (Some (map clean_path ps)))
       \<and> (\<forall>p\<in>set ps. \<exists>kept t. p = kept @ t \<and> set t \<subseteq> {CHR ''/'', backslash}
            \<and> (kept = [] \<or> last kept \<notin> {CHR ''/'', backslash})
            \<and> clean_path p = map (\<lambda>c. if c = backslash then CHR ''/'' else c) kept)"
proof (intro conjI impI ballI)
  assume a: "getConfig cfg1 ''localesPaths'' = JStr (js_join '','' ps) \<and> getConfig cfg2 ''localesPaths'' = JArr ps"
  then show "Config_localesPaths cfg1 = Inr (Some (map clean_path ps))"
    unfolding Config_localesPaths_def Let_def
    by (intro read_localesPaths_string assms) simp
  from a show "Config_localesPaths cfg2 = Inr (Some (map clean_path ps))"
    by (simp add: Config_localesPaths_def)
next
  assume a: "getConfig_in cfg1 ''localesPaths'' (Some sc) = JStr (js_join '','' ps)
      \<and> getConfig_in cfg2 ''localesPaths'' (Some sc) = JArr ps"
  then show "getLocalesPathsInScope cfg1 sc = Inr (Some (map clean_path ps))"
    unfolding getLocalesPathsInScope_def Let_def
    by (intro read_localesPaths_string assms) simp
  from a show "getLocalesPathsInScope cfg2 sc = Inr (Some (map clean_path ps))"
    by (simp add: getLocalesPathsInScope_def)
next
  fix p
  show "\<exists>kept t. p = kept @ t \<and> set t \<subseteq> {CHR ''/'', backslash}
            \<and> (kept = [] \<or> last kept \<notin> {CHR ''/'', backslash})
            \<and> clean_path p = map (\<lambda>c. if c = backslash then CHR ''/'' else c) kept"
    by (rule clean_path_shape)
qed

theorem localesPaths_string_or_array_witness:
  "Config_localesPaths (config_of [(EXT_NAMESPACE, ''localesPaths'', JStr ''locales/,src/i18n'')])
     = Inr (Some [''locales'', ''src/i18n''])
   \<and> Config_localesPaths (config_of [(EXT_NAMESPACE, ''localesPaths'', JArr [''locales/'', ''src/i18n''])])
     = Inr (Some [''locales'', ''src/i18n''])"
proof -
  let ?ps = "[''locales/'', ''src/i18n'']"
  let ?c1 = "config_of [(EXT_NAMESPACE, ''localesPaths'', JStr ''locales/,src/i18n'')]"
  let ?c2 = "config_of [(EXT_NAMESPACE, ''localesPaths'', JArr ?ps)]"
  have h1: "?ps \<noteq> []" and h2: "?ps \<noteq> [[]]" and h3: "\<forall>p\<in>set ?ps. CHR '','' \<notin> set p"
    by simp_all
  have g: "getConfig ?c1 ''localesPaths'' = JStr (js_join '','' ?ps)
             \<and> getConfig ?c2 ''localesPaths'' = JArr ?ps"
    by (simp add: store_simps)
  have m: "map clean_path ?ps = [''locales'', ''src/i18n'']"
    by (simp add: clean_path_def trimEnd_def replace_backslashes_def backslash_def)
  from localesPaths_string_or_array [OF h1 h2 h3, of ?c1 ?c2] g
  have "Config_localesPaths ?c1 = Inr (Some (map clean_path ?ps))
          \<and> Config_localesPaths ?c2 = Inr (Some (map clean_path ?ps))"
    by blast
  then show ?thesis
    by (simp only: m)
qed

section \<open>Formatting messages\<close>

lemma close_brace_not_digit: "\<not> is_digit CHR ''}''"
  by (simp add: is_digit_def)

lemma match_placeholder_iff:
  "match_placeholder s = Some (ds, rest) \<longleftrightarrow>
     ds \<noteq> [] \<and> (\<forall>d\<in>set ds. is_digit d) \<and> s = CHR ''{'' # ds @ CHR ''}'' # rest"
proof
  assume m: "match_placeholder s = Some (ds, rest)"
  then obtain cs where s: "s = CHR ''{'' # cs"
    by (cases s) (auto simp: match_placeholder_def split: if_splits)
  from m s have d: "dropWhile is_digit cs = CHR ''}'' # rest" and t: "takeWhile is_digit cs = ds" "ds \<noteq> []"
    by (auto simp: match_placeholder_def split: list.splits if_splits)
  have "cs = takeWhile is_digit cs @ dropWhile is_digit cs" by simp
  with d t have "cs = ds @ CHR ''}'' # rest" by simp
  moreover from t have "\<forall>d\<in>set ds. is_digit d" by (auto dest: set_takeWhileD)
  ultimately show "ds \<noteq> [] \<and> (\<forall>d\<in>set ds. is_digit d) \<and> s = CHR ''{'' # ds @ CHR ''}'' # rest"
    using s t by simp
next
  assume a: "ds \<noteq> [] \<and> (\<forall>d\<in>set ds. is_digit d) \<and> s = CHR ''{'' # ds @ CHR ''}'' # rest"
  then have "takeWhile is_digit (ds @ CHR ''}'' # rest) = ds"
    and "dropWhile is_digit (ds @ CHR ''}'' # rest) = CHR ''}'' # rest"
    by (simp_all add: close_brace_not_digit)
  with a show "match_placeholder s = Some (ds, rest)"
    by (simp add: match_placeholder_def)
qed

lemma match_placeholder_None_iff:
  "match_placeholder s = None \<longleftrightarrow>
     \<not> (\<exists>ds rest. ds \<noteq> [] \<and> (\<forall>d\<in>set ds. is_digit d) \<and> s = CHR ''{'' # ds @ CHR ''}'' # rest)"
proof (cases "match_placeholder s")
  case None
  then show ?thesis
    using match_placeholder_iff [of s] by auto
next
  case (Some a)
  obtain ds rest where "a = (ds, rest)" by (cases a)
  with Some show ?thesis
    using match_placeholder_iff [of s ds rest] by auto
qed

lemma i18n_format_at_placeholder:
  assumes "ds \<noteq> []" and "\<forall>d\<in>set ds. is_digit d"
  shows "i18n_format (CHR ''{'' # ds @ CHR ''}'' # rest) args =
           (case replacer args (CHR ''{'' # ds @ ''}'') ds of
              Inl e \<Rightarrow> Inl e
            | Inr r \<Rightarrow> (case i18n_format rest args of Inl e \<Rightarrow> Inl e | Inr out \<Rightarrow> Inr (r @ out)))"
proof -
  from assms have "match_placeholder (CHR ''{'' # ds @ CHR ''}'' # rest) = Some (ds, rest)"
    by (simp add: match_placeholder_iff)
  then show ?thesis by simp
qed

lemma i18n_format_elsewhere:
  assumes "match_placeholder (c # cs) = None"
  shows "i18n_format (c # cs) args =
           (case i18n_format cs args of Inl e \<Rightarrow> Inl e | Inr out \<Rightarrow> Inr (c # out))"
  using assms by simp

lemma js_array_get_cases: "js_array_get args key = JUndefined \<or> js_array_get args key \<in> set args"
  by (simp add: js_array_get_def)

lemma js_toString_returns: "v \<noteq> JUndefined \<Longrightarrow> v \<noteq> JNull \<Longrightarrow> \<exists>s. js_toString v = Inr s"
  by (cases v) simp_all

lemma replacer_returns:
  assumes "JNull \<notin> set args"
  shows "\<exists>r. replacer args m number = Inr r"
proof (cases "js_array_get args number = JUndefined")
  case True
  then show ?thesis by (simp add: replacer_def)
next
  case False
  with js_array_get_cases [of args number] assms have "js_array_get args number \<noteq> JNull"
    by auto
  with False show ?thesis
    by (simp add: replacer_def js_toString_returns)
qed

lemma i18n_format_returns:
  assumes "JNull \<notin> set args"
  shows "\<exists>out. i18n_format s args = Inr out"
  using assms
proof (induction s args rule: i18n_format.induct)
  case (1 args)
  show ?case by simp
next
  case (2 c cs args)
  show ?case
  proof (cases "match_placeholder (c # cs)")
    case None
    with 2 show ?thesis by auto
  next
    case (Some a)
    obtain number rest where a: "a = (number, rest)" by (cases a)
    obtain r where r: "replacer args (CHR ''{'' # number @ ''}'') number = Inr r"
      using replacer_returns [OF "2.prems"] by blast
    from "2.IH"(2) [OF Some a [symmetric] r "2.prems"] obtain out where "i18n_format rest args = Inr out"
      by blast
    with Some a r show ?thesis by simp
  qed
qed

lemma i18n_format_without_null:
  assumes "JNull \<notin> set args" and "\<forall>a\<in>set args. js_value a"
  shows "i18n_format [] args = Inr []"
    and "ds \<noteq> [] \<Longrightarrow> \<forall>d\<in>set ds. is_digit d \<Longrightarrow> js_array_get args ds = JUndefined \<Longrightarrow>
           \<exists>out. i18n_format rest args = Inr out
             \<and> i18n_format (CHR ''{'' # ds @ CHR ''}'' # rest) args = Inr (CHR ''{'' # ds @ CHR ''}'' # out)"
    and "ds \<noteq> [] \<Longrightarrow> \<forall>d\<in>set ds. is_digit d \<Longrightarrow> js_array_get args ds \<noteq> JUndefined \<Longrightarrow>
           \<exists>str out. js_toString (js_array_get args ds) = Inr str \<and> i18n_format rest args = Inr out
             \<and> i18n_format (CHR ''{'' # ds @ CHR ''}'' # rest) args = Inr (str @ out)"
    and "match_placeholder (c # cs) = None \<Longrightarrow>
           \<exists>out. i18n_format cs args = Inr out \<and> i18n_format (c # cs) args = Inr (c # out)"
proof -
  show "i18n_format [] args = Inr []" by simp
next
  assume d: "ds \<noteq> []" "\<forall>d\<in>set ds. is_digit d" and u: "js_array_get args ds = JUndefined"
  obtain out where out: "i18n_format rest args = Inr out"
    using i18n_format_returns [OF assms(1)] by blast
  from u have "replacer args (CHR ''{'' # ds @ ''}'') ds = Inr (CHR ''{'' # ds @ ''}'')"
    by (simp add: replacer_def)
  with out i18n_format_at_placeholder [OF d, of rest args]
  show "\<exists>out. i18n_format rest args = Inr out
          \<and> i18n_format (CHR ''{'' # ds @ CHR ''}'' # rest) args = Inr (CHR ''{'' # ds @ CHR ''}'' # out)"
    by simp
next
  assume d: "ds \<noteq> []" "\<forall>d\<in>set ds. is_digit d" and u: "js_array_get args ds \<noteq> JUndefined"
  obtain out where out: "i18n_format rest args = Inr out"
    using i18n_format_returns [OF assms(1)] by blast
  obtain str where str: "replacer args (CHR ''{'' # ds @ ''}'') ds = Inr str"
    using replacer_returns [OF assms(1)] by blast
  with u have "js_toString (js_array_get args ds) = Inr str"
    by (simp add: replacer_def)
  with out str i18n_format_at_placeholder [OF d, of rest args]
  show "\<exists>str out. js_toString (js_array_get args ds) = Inr str \<and> i18n_format rest args = Inr out
          \<and> i18n_format (CHR ''{'' # ds @ CHR ''}'' # rest) args = Inr (str @ out)"
    by simp
next
  assume m: "match_placeholder (c # cs) = None"
  obtain out where out: "i18n_format cs args = Inr out"
    using i18n_format_returns [OF assms(1)] by blast
  with i18n_format_elsewhere [OF m, of args]
  show "\<exists>out. i18n_format cs args = Inr out \<and> i18n_format (c # cs) args = Inr (c # out)"
    by simp
qed

text \<open>
  A key that is neither among the loaded messages nor the name of an inherited member
  gives the empty string; the name of an inherited member gives that member, or raises
  when there are arguments to format.
\<close>

lemma i18n_t_absent_key:
  "messages key = None \<Longrightarrow> key \<notin> set object_prototype_members \<Longrightarrow>
     i18n_t messages key args = Inr (JStr [])"
  by (simp add: i18n_t_def messages_get_def js_or_def Let_def)

lemma i18n_t_inherited_member:
  "messages key = None \<Longrightarrow> key \<in> set object_prototype_members \<Longrightarrow>
     i18n_t messages key args = (if args \<noteq> [] then Inl TypeError else Inr JObject)"
  by (simp add: i18n_t_def messages_get_def js_or_def Let_def)

text \<open>
  Claim C8, at the input where the code departs from it. An argument that is
  \<^verbatim>\<open>null\<close> passes the test \<^verbatim>\<open>typeof args[number] !== 'undefined'\<close> and has no
  \<^verbatim>\<open>toString\<close>: \<^verbatim>\<open>format('{0}', [null])\<close> raises, and so does \<^verbatim>\<open>t\<close> for a message
  that refers to such an argument. The placeholder is neither replaced nor left as it is.
\<close>

theorem format_null_argument_raises:
  "i18n_format ''{0}'' [JNull] = Inl TypeError
   \<and> i18n_t [''greeting'' \<mapsto> ''Hello {0}''] ''greeting'' [JNull] = Inl TypeError"
  by (simp add: i18n_t_def messages_get_def js_or_def Let_def match_placeholder_def is_digit_def
        replacer_def js_array_get_def read_nat_def)

end
